theory Spec2Isabelle
  imports Complex_Main
begin

section \<open>Conventions\<close>

text \<open>
  The development covers the two pieces of original logic of the example scripts:
  the class \<^verbatim>\<open>LocalLinearTrend\<close> of \<^verbatim>\<open>statespace_local_linear_trend.py\<close> and the
  function \<^verbatim>\<open>simulate_seasonal_term\<close> of \<^verbatim>\<open>statespace_seasonal.py\<close>.

  Python exceptions are values of the type \<open>error\<close>. The matrices of the state-space
  representation are lists of rows over an arbitrary element type \<open>'a\<close>, so that what
  is proved about which cell holds which value does not depend on the arithmetic of
  the elements. Where arithmetic is needed (squares, the standard deviation, the
  product \<^verbatim>\<open>periodicity * total_cycles\<close>), numbers are the exact reals; the binary64
  rounding of the running program is not part of the model, and neither are the
  conversions between element types that numpy makes when it stores a value.
\<close>

datatype error = AssertionError | IndexError | ValueError | ZeroDivisionError

section \<open>Arrays\<close>

type_synonym 'a matrix = "'a list list"

definition zeros :: "nat \<Rightarrow> nat \<Rightarrow> 'a::zero matrix" where
  "zeros r c = replicate r (replicate c 0)"

definition eye :: "nat \<Rightarrow> 'a::{zero,one} matrix" where
  "eye n = map (\<lambda>i. map (\<lambda>j. if i = j then 1 else 0) [0..<n]) [0..<n]"

definition diag_indices :: "nat \<Rightarrow> nat list \<times> nat list" where
  "diag_indices n = ([0..<n], [0..<n])"

text \<open>Is \<open>(i, j)\<close> a cell of \<open>M\<close>? An index outside the array raises IndexError.\<close>

definition in_bounds :: "'a matrix \<Rightarrow> nat \<times> nat \<Rightarrow> bool" where
  "in_bounds M ij = (fst ij < length M \<and> snd ij < length (M ! fst ij))"

text \<open>The store \<^verbatim>\<open>M[i, j] = v\<close> itself, once the index has been checked.\<close>

definition store :: "(nat \<times> nat) \<times> 'a \<Rightarrow> 'a matrix \<Rightarrow> 'a matrix" where
  "store w M = M[fst (fst w) := (M ! fst (fst w))[snd (fst w) := snd w]]"

text \<open>
  Broadcasting of a one-dimensional array to length \<open>n\<close>: an array of that length is
  taken as it is, an array of length one is repeated, any other length is refused.
\<close>

definition broadcast_to :: "nat \<Rightarrow> 'b list \<Rightarrow> 'b list option" where
  "broadcast_to n vs =
     (if length vs = n then Some vs
      else if length vs = 1 then Some (replicate n (hd vs))
      else None)"

text \<open>Two index arrays are broadcast against each other to one list of cells.\<close>

definition index_cells :: "nat list \<Rightarrow> nat list \<Rightarrow> (nat \<times> nat) list option" where
  "index_cells rows cols =
     (let n = (if length rows = 1 then length cols else length rows) in
      case (broadcast_to n rows, broadcast_to n cols) of
        (Some rs, Some cs) \<Rightarrow> Some (zip rs cs)
      | _ \<Rightarrow> None)"

text \<open>
  \<^verbatim>\<open>M[rows, cols] = vals\<close> with index arrays: the value is broadcast to the number of
  cells (ValueError when it cannot be), every index is checked (IndexError), and only
  then are the cells stored, in order.
\<close>

definition put_cells :: "nat list \<Rightarrow> nat list \<Rightarrow> 'a list \<Rightarrow> 'a matrix \<Rightarrow> error + 'a matrix" where
  "put_cells rows cols vals M =
     (case index_cells rows cols of
        None \<Rightarrow> Inl IndexError
      | Some cells \<Rightarrow>
          (case broadcast_to (length cells) vals of
             None \<Rightarrow> Inl ValueError
           | Some vs \<Rightarrow>
               if list_all (in_bounds M) cells then Inr (fold store (zip cells vs) M)
               else Inl IndexError))"

text \<open>\<^verbatim>\<open>M[i, j] = v\<close> with integer indices.\<close>

definition put_cell :: "nat \<Rightarrow> nat \<Rightarrow> 'a \<Rightarrow> 'a matrix \<Rightarrow> error + 'a matrix" where
  "put_cell i j v M = (if in_bounds M (i, j) then Inr (store ((i, j), v) M) else Inl IndexError)"

section \<open>The state-space representation and the model object\<close>

text \<open>
  Modelled from the spec: the representation object \<^verbatim>\<open>self.ssm\<close> of the base class
  \<^verbatim>\<open>MLEModel\<close>, which is not among the source files. It holds the observation
  (design) matrix, the transition matrix, the state-noise selection matrix, the
  observation-noise covariance and the state-noise covariance, addressed by name.
\<close>

record 'a representation =
  design :: "'a matrix"
  obs_cov :: "'a matrix"
  transition :: "'a matrix"
  selection :: "'a matrix"
  state_cov :: "'a matrix"

definition get_matrix :: "string \<Rightarrow> 'a representation \<Rightarrow> 'a matrix option" where
  "get_matrix name s =
     (if name = ''design'' then Some (design s)
      else if name = ''obs_cov'' then Some (obs_cov s)
      else if name = ''transition'' then Some (transition s)
      else if name = ''selection'' then Some (selection s)
      else if name = ''state_cov'' then Some (state_cov s)
      else None)"

definition set_matrix :: "string \<Rightarrow> 'a matrix \<Rightarrow> 'a representation \<Rightarrow> 'a representation" where
  "set_matrix name M s =
     (if name = ''design'' then s\<lparr>design := M\<rparr>
      else if name = ''obs_cov'' then s\<lparr>obs_cov := M\<rparr>
      else if name = ''transition'' then s\<lparr>transition := M\<rparr>
      else if name = ''selection'' then s\<lparr>selection := M\<rparr>
      else if name = ''state_cov'' then s\<lparr>state_cov := M\<rparr>
      else s)"

text \<open>
  Modelled from the spec: \<^verbatim>\<open>ssm[name, i, j] = v\<close> and \<^verbatim>\<open>ssm[(name, rows, cols)] = vals\<close>
  of the representation (not among the source files): the named matrix is looked up
  (IndexError for a name that is none of the matrices), the cells are written, and
  the matrix is put back.
\<close>

definition setitem_cell :: "string \<Rightarrow> nat \<Rightarrow> nat \<Rightarrow> 'a \<Rightarrow> 'a representation \<Rightarrow> error + 'a representation" where
  "setitem_cell name i j v s =
     (case get_matrix name s of
        None \<Rightarrow> Inl IndexError
      | Some M \<Rightarrow> (case put_cell i j v M of Inl e \<Rightarrow> Inl e | Inr M' \<Rightarrow> Inr (set_matrix name M' s)))"

definition setitem_cells :: "string \<times> nat list \<times> nat list \<Rightarrow> 'a list \<Rightarrow> 'a representation \<Rightarrow> error + 'a representation" where
  "setitem_cells key vals s =
     (case key of (name, rows, cols) \<Rightarrow>
        (case get_matrix name s of
           None \<Rightarrow> Inl IndexError
         | Some M \<Rightarrow>
             (case put_cells rows cols vals M of
                Inl e \<Rightarrow> Inl e
              | Inr M' \<Rightarrow> Inr (set_matrix name M' s))))"

record 'a MLEModel =
  endog :: "'a list"
  k_states :: nat
  k_posdef :: nat
  initialization :: string
  loglikelihood_burn :: nat
  ssm :: "'a representation"

text \<open>The subclass adds the cached index of the diagonal of the state covariance.\<close>

record 'a LocalLinearTrend = "'a MLEModel" +
  state_cov_idx :: "string \<times> nat list \<times> nat list"

text \<open>
  Modelled from the spec: the constructor of the base class \<^verbatim>\<open>MLEModel\<close> (not among
  the source files). It keeps the observation series and the keyword arguments and
  allocates every matrix of the representation, filled with zeros, in the shape its
  dimensions give; the series is univariate, so there is one observed variable.
\<close>

definition MLEModel_init :: "'a list \<Rightarrow> nat \<Rightarrow> nat \<Rightarrow> string \<Rightarrow> nat \<Rightarrow> 'a::zero MLEModel" where
  "MLEModel_init y ks kp ini burn =
     \<lparr>endog = y, k_states = ks, k_posdef = kp, initialization = ini,
      loglikelihood_burn = burn,
      ssm = \<lparr>design = zeros 1 ks, obs_cov = zeros 1 1, transition = zeros ks ks,
             selection = zeros ks kp, state_cov = zeros kp kp\<rparr>\<rparr>"

text \<open>
  Modelled from the spec: \<^verbatim>\<open>MLEModel.update\<close> (not among the source files), called as
  the subclass calls it, with the parameters already constrained: it hands the
  parameter vector back as an array and changes nothing.
\<close>

definition MLEModel_update :: "'a list \<Rightarrow> 'a list" where
  "MLEModel_update params = params"

subsection \<open>\<^verbatim>\<open>LocalLinearTrend.__init__\<close>\<close>

text \<open>
  \<^verbatim>\<open>np.array([1, 0])\<close> is one-dimensional; the representation stores it as the single
  row of the \<open>1 \<times> 2\<close> design matrix.
\<close>

definition LocalLinearTrend_init :: "'a list \<Rightarrow> 'a::{zero,one} LocalLinearTrend" where
  "LocalLinearTrend_init y =
     (let ks = 2; kp = 2;
          self = MLEModel_init y ks kp ''approximate_diffuse'' ks;
          self = self\<lparr>ssm := (ssm self)\<lparr>design := [[1, 0]]\<rparr>\<rparr>;
          self = self\<lparr>ssm := (ssm self)\<lparr>transition := [[1, 1], [0, 1]]\<rparr>\<rparr>;
          self = self\<lparr>ssm := (ssm self)\<lparr>selection := eye ks\<rparr>\<rparr>
      in MLEModel.extend self
           (LocalLinearTrend.fields (''state_cov'', diag_indices kp)))"

subsection \<open>\<^verbatim>\<open>LocalLinearTrend.update\<close>\<close>

text \<open>
  The method returns nothing and mutates the object, so the model returns the object
  as the call leaves it, together with the exception raised, if any. \<^verbatim>\<open>params[0]\<close>
  raises IndexError on an empty vector; a store that raises leaves the earlier store
  in place.
\<close>

definition update :: "'a list \<Rightarrow> 'a LocalLinearTrend \<Rightarrow> error option \<times> 'a LocalLinearTrend" where
  "update params0 self =
     (let params = MLEModel_update params0 in
      case params of
        [] \<Rightarrow> (Some IndexError, self)
      | p0 # _ \<Rightarrow>
          (case setitem_cell ''obs_cov'' 0 0 p0 (ssm self) of
             Inl e \<Rightarrow> (Some e, self)
           | Inr s1 \<Rightarrow>
               (case setitem_cells (state_cov_idx self) (drop 1 params) s1 of
                  Inl e \<Rightarrow> (Some e, self\<lparr>ssm := s1\<rparr>)
                | Inr s2 \<Rightarrow> (None, self\<lparr>ssm := s2\<rparr>))))"

text \<open>A run of calls of \<^verbatim>\<open>update\<close> on one object, whether or not a call raised.\<close>

definition updates :: "'a list list \<Rightarrow> 'a LocalLinearTrend \<Rightarrow> 'a LocalLinearTrend" where
  "updates ps self = fold (\<lambda>p m. snd (update p m)) ps self"

subsection \<open>\<^verbatim>\<open>start_params\<close>, \<^verbatim>\<open>transform_params\<close>, \<^verbatim>\<open>untransform_params\<close>\<close>




definition transform_params :: "real list \<Rightarrow> real list" where
  "transform_params unconstrained = map (\<lambda>x. x ^ 2) unconstrained"

text \<open>\<^verbatim>\<open>constrained**0.5\<close> is \<^verbatim>\<open>nan\<close> (\<open>None\<close>) at a negative entry.\<close>

definition untransform_params :: "real list \<Rightarrow> real option list" where
  "untransform_params constrained = map (\<lambda>x. if x < 0 then None else Some (sqrt x)) constrained"

section \<open>\<^verbatim>\<open>simulate_seasonal_term\<close>\<close>

text \<open>\<^verbatim>\<open>int(x)\<close> truncates towards zero.\<close>

definition py_int :: "real \<Rightarrow> int" where
  "py_int x = (if 0 \<le> x then \<lfloor>x\<rfloor> else \<lceil>x\<rceil>)"

text \<open>\<^verbatim>\<open>xs[i:]\<close>: a negative start counts from the end and is clipped at the beginning.\<close>

definition slice_from :: "int \<Rightarrow> 'a list \<Rightarrow> 'a list" where
  "slice_from i xs = (if i < 0 then drop (nat (int (length xs) + i)) xs else drop (nat i) xs)"

text \<open>
  \<^verbatim>\<open>harmonics if harmonics else int(np.floor(periodicity / 2))\<close>: the argument is \<open>None\<close>
  or an integer, and both \<open>None\<close> and \<open>0\<close> are falsy.
\<close>

definition effective_harmonics :: "real \<Rightarrow> int option \<Rightarrow> int" where
  "effective_harmonics periodicity harmonics =
     (case harmonics of
        Some h \<Rightarrow> if h \<noteq> 0 then h else py_int (of_int \<lfloor>periodicity / 2\<rfloor>)
      | None \<Rightarrow> py_int (of_int \<lfloor>periodicity / 2\<rfloor>))"

text \<open>
  The global random generator is the sequence \<open>draws\<close> of the standard normal values
  it will deliver, read from a position that each draw advances.
  \<^verbatim>\<open>np.random.randn(n)\<close> takes \<open>n\<close> of them.
\<close>

definition randn :: "(nat \<Rightarrow> real) \<Rightarrow> nat \<Rightarrow> nat \<Rightarrow> real list" where
  "randn draws k n = map draws [k..<k + n]"

text \<open>
  The body of the loop over the harmonics \<open>j = 1, \<dots>, harmonics\<close>; the arrays have
  \<open>harmonics\<close> entries, so \<open>j - 1\<close> is always an index of them.
\<close>

definition harmonic_step ::
  "real \<Rightarrow> real \<Rightarrow> (nat \<Rightarrow> real) \<Rightarrow> real list \<Rightarrow> real list \<Rightarrow> nat
     \<Rightarrow> real list \<times> real list \<times> nat \<Rightarrow> real list \<times> real list \<times> nat" where
  "harmonic_step lambda_p noise_std draws gamma_jt gamma_star_jt j st =
     (case st of (gamma_jtp1, gamma_star_jtp1, k) \<Rightarrow>
        (let cos_j = cos (lambda_p * real j);
             sin_j = sin (lambda_p * real j)
         in (gamma_jtp1[j - 1 :=
               gamma_jt ! (j - 1) * cos_j + gamma_star_jt ! (j - 1) * sin_j
                 + noise_std * draws k],
             gamma_star_jtp1[j - 1 :=
               - gamma_jt ! (j - 1) * sin_j + gamma_star_jt ! (j - 1) * cos_j
                 + noise_std * draws (k + 1)],
             k + 2)))"

text \<open>The body of the loop over the time steps \<open>t\<close>.\<close>

definition time_step ::
  "real \<Rightarrow> real \<Rightarrow> (nat \<Rightarrow> real) \<Rightarrow> nat \<Rightarrow> nat
     \<Rightarrow> real list \<times> real list \<times> real list \<times> nat
     \<Rightarrow> real list \<times> real list \<times> real list \<times> nat" where
  "time_step lambda_p noise_std draws harmonics t st =
     (case st of (series, gamma_jt, gamma_star_jt, k) \<Rightarrow>
        (case fold (harmonic_step lambda_p noise_std draws gamma_jt gamma_star_jt)
                [1..<harmonics + 1]
                (replicate (length gamma_jt) 0, replicate (length gamma_star_jt) 0, k) of
           (gamma_jtp1, gamma_star_jtp1, k') \<Rightarrow>
             (series[t := sum_list gamma_jtp1], gamma_jtp1, gamma_star_jtp1, k')))"

text \<open>
  The function, with the position \<open>k0\<close> of the generator at the call. The failed
  assertion, the division by a zero periodicity and the refusal of \<^verbatim>\<open>randn\<close> and
  \<^verbatim>\<open>np.zeros\<close> to build an array of negative length are its ways to raise.
\<close>

definition simulate_seasonal_term ::
  "real \<Rightarrow> real \<Rightarrow> real \<Rightarrow> int option \<Rightarrow> (nat \<Rightarrow> real) \<Rightarrow> nat \<Rightarrow> error + real list" where
  "simulate_seasonal_term periodicity total_cycles noise_std harmonics draws k0 =
     (let duration = periodicity * total_cycles in
      if duration \<noteq> of_int (py_int duration) then Inl AssertionError
      else
        let duration = py_int duration;
            harmonics = effective_harmonics periodicity harmonics
        in
        if periodicity = 0 then Inl ZeroDivisionError
        else
          let lambda_p = 2 * pi / periodicity in
          if harmonics < 0 then Inl ValueError
          else
            let h = nat harmonics;
                gamma_jt = map (\<lambda>x. noise_std * x) (randn draws k0 h);
                gamma_star_jt = map (\<lambda>x. noise_std * x) (randn draws (k0 + h) h);
                total_timesteps = 100 * duration
            in
            if total_timesteps < 0 then Inl ValueError
            else
              let series = replicate (nat total_timesteps) 0;
                  final = fold (time_step lambda_p noise_std draws h)
                            [0..<nat total_timesteps]
                            (series, gamma_jt, gamma_star_jt, k0 + 2 * h)
              in Inr (slice_from (- duration) (fst final)))"

section \<open>A freshly constructed model\<close>

lemma init_fields:
  "endog (LocalLinearTrend_init y) = y"
  "state_cov_idx (LocalLinearTrend_init y) = (''state_cov'', [0, 1], [0, 1])"
  "ssm (LocalLinearTrend_init y) =
     \<lparr>design = [[1, 0]], obs_cov = [[0]], transition = [[1, 1], [0, 1]],
      selection = [[1, 0], [0, 1]], state_cov = [[0, 0], [0, 0]]\<rparr>"
  by (simp_all add: LocalLinearTrend_init_def MLEModel_init_def MLEModel.defs
      LocalLinearTrend.defs zeros_def eye_def diag_indices_def Let_def upt_rec numeral_2_eq_2)

text \<open>
  C8. Whatever the observation series, the constructor fixes the state dimension and
  the state-noise dimension at 2, asks for the approximate-diffuse initialisation of
  the state, and sets the log-likelihood burn-in to the state dimension, 2 periods.
\<close>

theorem init_dimensions:
  "k_states (LocalLinearTrend_init y) = 2 \<and>
   k_posdef (LocalLinearTrend_init y) = 2 \<and>
   initialization (LocalLinearTrend_init y) = ''approximate_diffuse'' \<and>
   loglikelihood_burn (LocalLinearTrend_init y) = k_states (LocalLinearTrend_init y) \<and>
   loglikelihood_burn (LocalLinearTrend_init y) = 2"
  by (simp add: LocalLinearTrend_init_def MLEModel_init_def MLEModel.defs
      LocalLinearTrend.defs Let_def)

text \<open>
  C2. On a freshly constructed model, \<^verbatim>\<open>update\<close> with the vector \<open>(a, b, c)\<close> returns
  without raising and leaves \<open>a\<close> in cell \<open>(0, 0)\<close> of the observation-noise covariance,
  \<open>b\<close> and \<open>c\<close> on the diagonal of the \<open>2 \<times> 2\<close> state-noise covariance, and zero in both
  of its off-diagonal cells.
\<close>

theorem update_fresh:
  "fst (update [a, b, c] (LocalLinearTrend_init y)) = None \<and>
   obs_cov (ssm (snd (update [a, b, c] (LocalLinearTrend_init y)))) = [[a]] \<and>
   state_cov (ssm (snd (update [a, b, c] (LocalLinearTrend_init y)))) = [[b, 0], [0, c]]"
  by (simp add: update_def init_fields MLEModel_update_def setitem_cell_def setitem_cells_def
      get_matrix_def set_matrix_def put_cell_def put_cells_def index_cells_def broadcast_to_def
      in_bounds_def store_def)


section \<open>Stores into a matrix\<close>

lemma store_shape [simp]: "map length (store w M) = map length M"
  by (cases "fst (fst w) < length M")
    (simp_all add: store_def map_update list_update_same_conv list_update_beyond not_less)

lemma fold_store_shape [simp]: "map length (fold store W M) = map length M"
  by (induction W arbitrary: M) simp_all

lemma in_bounds_shape:
  assumes "map length N = map length M"
  shows "in_bounds N ij = in_bounds M ij"
proof -
  have len: "length N = length M"
    using assms by (rule map_eq_imp_length_eq)
  have "length (N ! i) = length (M ! i)" if "i < length M" for i
  proof -
    have "map length N ! i = map length M ! i" by (simp add: assms)
    then show ?thesis using that len by simp
  qed
  then show ?thesis by (auto simp: in_bounds_def len)
qed

lemma store_same: "fst u = fst w \<Longrightarrow> store u (store w M) = store u M"
  by (cases "fst (fst w) < length M") (simp_all add: store_def list_update_beyond not_less)

lemma store_commute: "fst u \<noteq> fst w \<Longrightarrow> store u (store w M) = store w (store u M)"
proof (cases "fst (fst u) = fst (fst w)")
  case True
  assume "fst u \<noteq> fst w"
  with True have "snd (fst u) \<noteq> snd (fst w)" by (simp add: prod_eq_iff)
  with True show ?thesis
    by (cases "fst (fst w) < length M")
      (simp_all add: store_def list_update_swap list_update_beyond not_less)
next
  case False
  then show ?thesis by (simp add: store_def list_update_swap)
qed

lemma store_absorb: "store u (fold store V (store u M)) = store u (fold store V M)"
proof (induction V arbitrary: M)
  case Nil
  show ?case by (simp add: store_same)
next
  case (Cons v V)
  show ?case
  proof (cases "fst v = fst u")
    case True
    then show ?thesis by (simp add: store_same)
  next
    case False
    then have "store v (store u M) = store u (store v M)" by (rule store_commute)
    then show ?thesis by (simp add: Cons.IH)
  qed
qed

lemma fold_store_absorb:
  "fold store W (fold store V (fold store W M)) = fold store W (fold store V M)"
proof (induction W arbitrary: V M)
  case Nil
  show ?case by simp
next
  case (Cons u W)
  have "fold store W (fold store (V @ [u]) (fold store W (store u M)))
      = fold store W (fold store (V @ [u]) (store u M))"
    by (rule Cons.IH)
  then show ?case by (simp add: store_absorb)
qed

lemma fold_store_idem: "fold store W (fold store W M) = fold store W M"
  using fold_store_absorb [of W "[]" M] by simp

lemma put_cell_Inl:
  assumes "put_cell i j v M = Inl e" and "map length N = map length M"
  shows "put_cell i j v N = Inl e"
  using assms(1) by (simp add: put_cell_def in_bounds_shape [OF assms(2)] split: if_splits)

lemma put_cell_Inr:
  assumes "put_cell i j v M = Inr M'" and "map length N = map length M"
  shows "M' = store ((i, j), v) M \<and> put_cell i j v N = Inr (store ((i, j), v) N)"
  using assms(1) by (auto simp add: put_cell_def in_bounds_shape [OF assms(2)] split: if_splits)

lemma list_all_in_bounds_shape:
  assumes "map length N = map length M"
  shows "list_all (in_bounds N) cells = list_all (in_bounds M) cells"
  by (induction cells) (simp_all add: in_bounds_shape [OF assms])

lemma put_cells_Inl:
  assumes "put_cells r c vs M = Inl e" and "map length N = map length M"
  shows "put_cells r c vs N = Inl e"
  using assms(1)
  by (auto simp add: put_cells_def list_all_in_bounds_shape [OF assms(2)]
      split: option.splits if_splits)

lemma put_cells_Inr:
  assumes "put_cells r c vs M = Inr M'"
  shows "\<exists>W. M' = fold store W M \<and>
    (\<forall>N. map length N = map length M \<longrightarrow> put_cells r c vs N = Inr (fold store W N))"
proof (cases "index_cells r c")
  case None
  with assms show ?thesis by (simp add: put_cells_def)
next
  case cells: (Some cells)
  show ?thesis
  proof (cases "broadcast_to (length cells) vs")
    case None
    with assms cells show ?thesis by (simp add: put_cells_def)
  next
    case (Some ws)
    from assms cells Some have ok: "list_all (in_bounds M) cells"
      and M': "M' = fold store (zip cells ws) M"
      by (simp_all add: put_cells_def split: if_splits)
    have "put_cells r c vs N = Inr (fold store (zip cells ws) N)"
      if "map length N = map length M" for N
      using cells Some ok by (simp add: put_cells_def list_all_in_bounds_shape [OF that])
    with M' show ?thesis by blast
  qed
qed

section \<open>Matrices by name\<close>

lemma name_cases:
  obtains "name = ''design''" | "name = ''obs_cov''" | "name = ''transition''"
  | "name = ''selection''" | "name = ''state_cov''"
  | "name \<noteq> ''design''" and "name \<noteq> ''obs_cov''" and "name \<noteq> ''transition''"
    and "name \<noteq> ''selection''" and "name \<noteq> ''state_cov''"
  by blast

lemma get_matrix_set_same:
  assumes "get_matrix name s = Some M"
  shows "get_matrix name (set_matrix name M' s) = Some M'"
proof (cases name rule: name_cases)
  case 6
  then show ?thesis using assms by (simp add: get_matrix_def)
qed (simp_all add: get_matrix_def set_matrix_def)

lemma set_matrix_set:
  "set_matrix name M2 (set_matrix name M1 s) = set_matrix name M2 s"
  by (simp add: set_matrix_def)

lemma obs_cov_set_matrix:
  "name \<noteq> ''obs_cov'' \<Longrightarrow> obs_cov (set_matrix name M s) = obs_cov s"
  by (simp add: set_matrix_def)

lemma set_matrix_obs_cov: "set_matrix ''obs_cov'' M s = s\<lparr>obs_cov := M\<rparr>"
  by (simp add: set_matrix_def)

lemma get_matrix_obs_cov: "get_matrix ''obs_cov'' s = Some (obs_cov s)"
  by (simp add: get_matrix_def)

section \<open>The stores of \<^verbatim>\<open>update\<close>\<close>

lemma setitem_cell_obs_cov:
  "setitem_cell ''obs_cov'' 0 0 v s =
     (case put_cell 0 0 v (obs_cov s) of Inl e \<Rightarrow> Inl e | Inr M' \<Rightarrow> Inr (s\<lparr>obs_cov := M'\<rparr>))"
  by (simp add: setitem_cell_def get_matrix_obs_cov set_matrix_obs_cov split: sum.splits)

lemma update_Cons:
  "update (p0 # rest) m =
     (case setitem_cell ''obs_cov'' 0 0 p0 (ssm m) of
        Inl e \<Rightarrow> (Some e, m)
      | Inr s1 \<Rightarrow>
          (case setitem_cells (state_cov_idx m) rest s1 of
             Inl e \<Rightarrow> (Some e, m\<lparr>ssm := s1\<rparr>)
           | Inr s2 \<Rightarrow> (None, m\<lparr>ssm := s2\<rparr>)))"
  by (simp add: update_def MLEModel_update_def split: sum.splits)

section \<open>Repeating \<^verbatim>\<open>update\<close>\<close>

text \<open>
  C6. \<^verbatim>\<open>update\<close> is idempotent: from any state of the model object and for any
  parameter vector, a second call with the same vector leaves the object exactly as
  the first call left it, and ends as the first did (returning, or raising the same
  exception).
\<close>

theorem update_idempotent: "update p (snd (update p m)) = update p m"
proof (cases p)
  case Nil
  then show ?thesis by (simp add: update_def MLEModel_update_def)
next
  case (Cons p0 rest)
  let ?w = "((0, 0), p0)"
  let ?O = "obs_cov (ssm m)"
  show ?thesis
  proof (cases "put_cell 0 0 p0 ?O")
    case (Inl e)
    then have "update p m = (Some e, m)"
      by (simp add: Cons update_Cons setitem_cell_obs_cov)
    then show ?thesis by simp
  next
    case (Inr O1)
    have O1: "O1 = store ?w ?O"
      using put_cell_Inr [OF Inr refl] by simp
    have again: "put_cell 0 0 p0 N = Inr (store ?w N)" if "map length N = map length ?O" for N
      using put_cell_Inr [OF Inr that] by simp
    define s1 where "s1 = (ssm m)\<lparr>obs_cov := O1\<rparr>"
    have A1: "setitem_cell ''obs_cov'' 0 0 p0 (ssm m) = Inr s1"
      by (simp add: setitem_cell_obs_cov Inr s1_def)
    have "put_cell 0 0 p0 O1 = Inr (store ?w O1)"
      by (rule again) (simp add: O1)
    then have "put_cell 0 0 p0 O1 = Inr O1"
      by (simp add: O1 store_same)
    then have B1: "setitem_cell ''obs_cov'' 0 0 p0 s1 = Inr s1"
      by (simp add: setitem_cell_obs_cov s1_def)
    obtain name rows cols where key: "state_cov_idx m = (name, rows, cols)"
      by (cases "state_cov_idx m")
    show ?thesis
    proof (cases "setitem_cells (name, rows, cols) rest s1")
      case failed: (Inl e)
      have "update p m = (Some e, m\<lparr>ssm := s1\<rparr>)"
        by (simp add: Cons update_Cons A1 key failed)
      moreover have "update p (m\<lparr>ssm := s1\<rparr>) = (Some e, m\<lparr>ssm := s1\<rparr>)"
        by (simp add: Cons update_Cons B1 key failed)
      ultimately show ?thesis by simp
    next
      case wrote: (Inr s2)
      then obtain M M' where M: "get_matrix name s1 = Some M"
        and put: "put_cells rows cols rest M = Inr M'"
        and s2: "s2 = set_matrix name M' s1"
        by (auto simp: setitem_cells_def split: option.splits sum.splits)
      from put_cells_Inr [OF put] obtain W where M': "M' = fold store W M"
        and put_again: "\<And>N. map length N = map length M \<Longrightarrow>
          put_cells rows cols rest N = Inr (fold store W N)"
        by blast
      have U1: "update p m = (None, m\<lparr>ssm := s2\<rparr>)"
        by (simp add: Cons update_Cons A1 key wrote)
      have B2: "\<exists>s3. setitem_cell ''obs_cov'' 0 0 p0 s2 = Inr s3
                \<and> setitem_cells (name, rows, cols) rest s3 = Inr s2"
      proof (cases "name = ''obs_cov''")
        case True
        have MO: "M = O1"
          using M by (simp add: True get_matrix_obs_cov s1_def)
        have s2': "s2 = (ssm m)\<lparr>obs_cov := M'\<rparr>"
          by (simp add: s2 True set_matrix_obs_cov s1_def)
        have "put_cell 0 0 p0 M' = Inr (store ?w M')"
          by (rule again) (simp add: M' MO O1)
        then have C1: "setitem_cell ''obs_cov'' 0 0 p0 s2 = Inr (s2\<lparr>obs_cov := store ?w M'\<rparr>)"
          by (simp add: setitem_cell_obs_cov s2')
        have "put_cells rows cols rest (store ?w M') = Inr (fold store W (store ?w M'))"
          by (rule put_again) (simp add: M')
        moreover have "fold store W (store ?w M') = M'"
          using fold_store_idem [of "?w # W" ?O] by (simp add: M' MO O1)
        ultimately have "put_cells rows cols rest (store ?w M') = Inr M'"
          by simp
        then have C2: "setitem_cells (name, rows, cols) rest (s2\<lparr>obs_cov := store ?w M'\<rparr>) = Inr s2"
          by (simp add: setitem_cells_def True get_matrix_obs_cov set_matrix_obs_cov s2')
        from C1 C2 show ?thesis by blast
      next
        case False
        have "obs_cov s2 = O1"
          by (simp add: s2 obs_cov_set_matrix [OF False] s1_def)
        then have C1: "setitem_cell ''obs_cov'' 0 0 p0 s2 = Inr s2"
          using \<open>put_cell 0 0 p0 O1 = Inr O1\<close> by (simp add: setitem_cell_obs_cov)
        have G: "get_matrix name s2 = Some M'"
          unfolding s2 by (rule get_matrix_set_same [OF M])
        have "put_cells rows cols rest M' = Inr (fold store W M')"
          by (rule put_again) (simp add: M')
        then have "put_cells rows cols rest M' = Inr M'"
          by (simp add: M' fold_store_idem)
        then have "setitem_cells (name, rows, cols) rest s2 = Inr s2"
          by (simp add: setitem_cells_def G) (simp add: s2 set_matrix_set)
        with C1 show ?thesis by blast
      qed
      then obtain s3 where "setitem_cell ''obs_cov'' 0 0 p0 s2 = Inr s3"
        and "setitem_cells (name, rows, cols) rest s3 = Inr s2"
        by blast
      then have "update p (m\<lparr>ssm := s2\<rparr>) = (None, m\<lparr>ssm := s2\<rparr>)"
        by (simp add: Cons update_Cons key)
      with U1 show ?thesis by simp
    qed
  qed
qed

section \<open>What \<^verbatim>\<open>update\<close> leaves alone\<close>

lemma update_state_cov_idx: "state_cov_idx (snd (update p m)) = state_cov_idx m"
  by (cases p) (simp_all add: update_def MLEModel_update_def split: sum.splits)

lemma setitem_cells_state_cov:
  assumes "setitem_cells (''state_cov'', rows, cols) vals s = Inr s'"
  shows "design s' = design s \<and> transition s' = transition s \<and> selection s' = selection s
    \<and> obs_cov s' = obs_cov s"
  using assms
  by (auto simp: setitem_cells_def get_matrix_def set_matrix_def split: sum.splits)

lemma setitem_cell_obs_cov_frame:
  assumes "setitem_cell ''obs_cov'' 0 0 v s = Inr s'"
  shows "design s' = design s \<and> transition s' = transition s \<and> selection s' = selection s"
  using assms by (auto simp: setitem_cell_obs_cov split: sum.splits)

lemma update_frame:
  assumes "fst (state_cov_idx m) = ''state_cov''"
  shows "design (ssm (snd (update p m))) = design (ssm m)
    \<and> transition (ssm (snd (update p m))) = transition (ssm m)
    \<and> selection (ssm (snd (update p m))) = selection (ssm m)"
proof (cases p)
  case Nil
  then show ?thesis by (simp add: update_def MLEModel_update_def)
next
  case (Cons p0 rest)
  obtain rows cols where key: "state_cov_idx m = (''state_cov'', rows, cols)"
    using assms by (cases "state_cov_idx m") simp
  show ?thesis
  proof (cases "setitem_cell ''obs_cov'' 0 0 p0 (ssm m)")
    case (Inl e)
    then show ?thesis by (simp add: Cons update_Cons)
  next
    case s1: (Inr s1)
    note f1 = setitem_cell_obs_cov_frame [OF s1]
    show ?thesis
    proof (cases "setitem_cells (''state_cov'', rows, cols) rest s1")
      case (Inl e)
      then show ?thesis by (simp add: Cons update_Cons s1 key f1)
    next
      case (Inr s2)
      from setitem_cells_state_cov [OF Inr] f1 show ?thesis
        by (simp add: Cons update_Cons s1 key Inr)
    qed
  qed
qed

lemma updates_frame:
  "fst (state_cov_idx m) = ''state_cov'' \<Longrightarrow>
     design (ssm (updates ps m)) = design (ssm m)
     \<and> transition (ssm (updates ps m)) = transition (ssm m)
     \<and> selection (ssm (updates ps m)) = selection (ssm m)"
proof (induction ps arbitrary: m)
  case Nil
  show ?case by (simp add: updates_def)
next
  case (Cons p ps)
  have "fst (state_cov_idx (snd (update p m))) = ''state_cov''"
    using Cons.prems by (simp add: update_state_cov_idx)
  from Cons.IH [OF this] update_frame [OF Cons.prems, of p] show ?case
    by (simp add: updates_def)
qed

text \<open>
  C3. After any finite run of calls of \<^verbatim>\<open>update\<close> on a constructed model, with
  arbitrary parameter vectors (also vectors on which a call raises), the design
  matrix is still \<open>(1, 0)\<close>, the transition matrix \<open>[[1, 1], [0, 1]]\<close> and the selection
  matrix the \<open>2 \<times> 2\<close> identity.
\<close>

theorem structural_matrices_fixed:
  "design (ssm (updates ps (LocalLinearTrend_init y))) = [[1, 0]] \<and>
   transition (ssm (updates ps (LocalLinearTrend_init y))) = [[1, 1], [0, 1]] \<and>
   selection (ssm (updates ps (LocalLinearTrend_init y))) = [[1, 0], [0, 1]]"
  using updates_frame [of "LocalLinearTrend_init y" ps] by (simp add: init_fields)

section \<open>The parameter transformation\<close>

text \<open>
  C7. Every component of \<^verbatim>\<open>transform_params(u)\<close> is at least zero, for every real
  vector \<open>u\<close>.
\<close>

theorem transform_params_nonneg:
  "i < length u \<Longrightarrow> length (transform_params u) = length u \<and> 0 \<le> transform_params u ! i"
  by (simp add: transform_params_def)

theorem transform_params_nonneg_witness:
  "(1::nat) < length [3, -2, 0 :: real]
   \<and> length (transform_params [3, -2, 0]) = length [3, -2, 0 :: real]
   \<and> 0 \<le> transform_params [3, -2, 0] ! 1
   \<and> transform_params [3, -2, 0] = [9, 4, 0]"
  using transform_params_nonneg [of 1 "[3, -2, 0]"] by (simp add: transform_params_def)

text \<open>
  In exact arithmetic squaring undoes the square root on non-negative entries, and
  the square root of a square is the absolute value. The running program computes
  both in binary64, where neither identity is exact.
\<close>

lemma roundtrip_exact:
  "list_all (\<lambda>x. 0 \<le> x) v \<Longrightarrow>
     map (map_option (\<lambda>x. x ^ 2)) (untransform_params v) = map Some v"
  "untransform_params (transform_params u) = map (\<lambda>x. Some \<bar>x\<bar>) u"
  by (induction v) (simp_all add: untransform_params_def transform_params_def)

section \<open>The starting parameters\<close>








section \<open>The outcome of \<^verbatim>\<open>simulate_seasonal_term\<close>\<close>

lemma py_int_of_int [simp]: "py_int (of_int n) = n"
  by (simp add: py_int_def)

lemma py_int_numerals [simp]:
  "py_int 0 = 0" "py_int 1 = 1" "py_int (- 1) = - 1"
  "py_int (numeral n) = numeral n" "py_int (- numeral n) = - numeral n"
  using py_int_of_int [of 0] py_int_of_int [of 1] py_int_of_int [of "- 1"]
    py_int_of_int [of "numeral n"] py_int_of_int [of "- numeral n"]
  by simp_all








section \<open>The default number of harmonics\<close>

text \<open>
  C10, as amended. Passing \<^verbatim>\<open>harmonics=0\<close> is the same call as leaving the argument
  out: either way the harmonic count in effect is \<open>\<lfloor>periodicity / 2\<rfloor>\<close>. The count in
  effect is zero exactly when the argument is left out or zero and
  \<open>\<lfloor>periodicity / 2\<rfloor> = 0\<close>.
\<close>

theorem harmonics_zero_is_default:
  "simulate_seasonal_term p c sd (Some 0) draws k = simulate_seasonal_term p c sd None draws k
   \<and> effective_harmonics p (Some 0) = \<lfloor>p / 2\<rfloor>
   \<and> effective_harmonics p None = \<lfloor>p / 2\<rfloor>
   \<and> (effective_harmonics p h = 0 \<longleftrightarrow> (h = None \<or> h = Some 0) \<and> \<lfloor>p / 2\<rfloor> = 0)"
proof -
  have same: "effective_harmonics p (Some 0) = effective_harmonics p None"
    by (simp add: effective_harmonics_def)
  have "simulate_seasonal_term p c sd (Some 0) draws k = simulate_seasonal_term p c sd None draws k"
    unfolding simulate_seasonal_term_def same by (rule refl)
  moreover have "effective_harmonics p None = \<lfloor>p / 2\<rfloor>"
    by (simp add: effective_harmonics_def)
  moreover have "effective_harmonics p h = 0 \<longleftrightarrow> (h = None \<or> h = Some 0) \<and> \<lfloor>p / 2\<rfloor> = 0"
    by (cases h) (simp_all add: effective_harmonics_def)
  ultimately show ?thesis using same by simp
qed

lemma time_step_no_harmonics:
  "time_step l sd draws 0 t (series, [], [], k) = (series[t := 0], [], [], k)"
  by (simp add: time_step_def)

lemma fold_time_step_no_harmonics:
  "fold (time_step l sd draws 0) ts (series, [], [], k) = (fold (\<lambda>t xs. xs[t := 0]) ts series, [], [], k)"
  by (induction ts arbitrary: series) (simp_all add: time_step_no_harmonics)

lemma fold_zero_replicate:
  "fold (\<lambda>t xs. xs[t := 0]) ts (replicate n (0::real)) = replicate n 0"
proof (induction ts)
  case Nil
  show ?case by simp
next
  case (Cons t ts)
  have "(replicate n (0::real))[t := 0] = replicate n 0"
    by (cases "t < n") (simp_all add: list_update_same_conv list_update_beyond)
  with Cons show ?case by simp
qed

text \<open>
  C10 as stated fails in its last part: with periodicity 1, the call with
  \<^verbatim>\<open>harmonics=0\<close> does run a simulation with zero harmonics, whose one value is the
  empty sum.
\<close>

theorem zero_harmonics_counterexample:
  "effective_harmonics 1 (Some 0) = 0
   \<and> simulate_seasonal_term 1 1 1 (Some 0) (\<lambda>_. 0) 0 = Inr [0]"
proof -
  have e: "effective_harmonics 1 (Some 0) = 0"
    by (simp add: effective_harmonics_def)
  have "simulate_seasonal_term 1 1 1 (Some 0) (\<lambda>_. 0) 0 = Inr (slice_from (- 1) (replicate 100 0))"
    by (simp add: simulate_seasonal_term_def e Let_def randn_def
        fold_time_step_no_harmonics fold_zero_replicate)
  moreover have "slice_from (- 1) (replicate 100 (0::real)) = [0]"
    by (simp add: slice_from_def)
  ultimately show ?thesis using e by simp
qed

end
